theory Spec2Isabelle
  imports Complex_Main
begin

section \<open>Tensors and scalars\<close>

text \<open>
  The model of \<^verbatim>\<open>src/scScope.py\<close>. A two-dimensional tensor (cells by genes) is the
  list of its rows. Its entries are finite numbers, modelled as reals: rounding and
  overflow of the machine floats are left out. All tensors of one call have the same
  shape; broadcasting between different shapes and shape failures are not modelled.
\<close>

type_synonym tensor = "real list list"

definition ew1 :: "(real \<Rightarrow> real) \<Rightarrow> tensor \<Rightarrow> tensor" where
  "ew1 f a = map (map f) a"

definition ew2 :: "(real \<Rightarrow> real \<Rightarrow> real) \<Rightarrow> tensor \<Rightarrow> tensor \<Rightarrow> tensor" where
  "ew2 f a b = map2 (map2 f) a b"

text \<open>\<^verbatim>\<open>a - b\<close>, \<^verbatim>\<open>a + b\<close> and \<^verbatim>\<open>torch.mul(a, b)\<close> on tensors of one shape.\<close>

definition torch_sub :: "tensor \<Rightarrow> tensor \<Rightarrow> tensor" where
  "torch_sub a b = ew2 (\<lambda>u v. u - v) a b"

definition torch_add :: "tensor \<Rightarrow> tensor \<Rightarrow> tensor" where
  "torch_add a b = ew2 (\<lambda>u v. u + v) a b"

definition torch_mul :: "tensor \<Rightarrow> tensor \<Rightarrow> tensor" where
  "torch_mul a b = ew2 (\<lambda>u v. u * v) a b"

text \<open>\<^verbatim>\<open>torch.sign\<close>: 1, 0 or -1 by the sign of each entry.\<close>

definition torch_sign :: "tensor \<Rightarrow> tensor" where
  "torch_sign a = ew1 sgn a"

text \<open>\<^verbatim>\<open>F.relu\<close>.\<close>

definition relu :: "tensor \<Rightarrow> tensor" where
  "relu a = ew1 (\<lambda>v. max 0 v) a"

text \<open>\<^verbatim>\<open>a + s\<close> and \<^verbatim>\<open>s - a\<close> for a Python number \<open>s\<close>.\<close>

definition add_scalar :: "tensor \<Rightarrow> real \<Rightarrow> tensor" where
  "add_scalar a s = ew1 (\<lambda>v. v + s) a"

definition rsub_scalar :: "real \<Rightarrow> tensor \<Rightarrow> tensor" where
  "rsub_scalar s a = ew1 (\<lambda>v. s - v) a"

text \<open>\<^verbatim>\<open>torch.norm\<close> with its default arguments: the Frobenius norm of all entries.\<close>

definition torch_norm :: "tensor \<Rightarrow> real" where
  "torch_norm a = sqrt (sum_list (map (\<lambda>v. v * v) (concat a)))"

text \<open>
  The quotient of two norms is a floating-point scalar, and division by zero does not
  raise on tensors: it gives an infinity or NaN. A scalar is therefore a finite real or one
  of the three special values of IEEE 754.
\<close>

datatype scalar = Fin real | PInf | NInf | NaN

fun is_finite :: "scalar \<Rightarrow> bool" where
  "is_finite (Fin r) = True"
| "is_finite PInf = False"
| "is_finite NInf = False"
| "is_finite NaN = False"

text \<open>Tensor division of one finite scalar by another.\<close>

definition fdiv :: "real \<Rightarrow> real \<Rightarrow> scalar" where
  "fdiv a b =
     (if b \<noteq> 0 then Fin (a / b)
      else if a = 0 then NaN
      else if 0 < a then PInf
      else NInf)"

text \<open>Addition of scalars, as \<^verbatim>\<open>loss_value += ...\<close> performs it.\<close>

fun fadd :: "scalar \<Rightarrow> scalar \<Rightarrow> scalar" where
  "fadd (Fin a) (Fin b) = Fin (a + b)"
| "fadd NaN y = NaN"
| "fadd x NaN = NaN"
| "fadd PInf NInf = NaN"
| "fadd NInf PInf = NaN"
| "fadd PInf y = PInf"
| "fadd x PInf = PInf"
| "fadd NInf y = NInf"
| "fadd x NInf = NInf"

datatype error = AttributeError | UnboundLocalError | IndexError

section \<open>The masked reconstruction loss\<close>

text \<open>
  \<^verbatim>\<open>scScopeTrainer.loss\<close>. The mask is the sign of the batch-corrected input, or the sign
  of the corrected input plus one when masking is off.
\<close>

definition val_mask_of :: "bool \<Rightarrow> tensor \<Rightarrow> tensor" where
  "val_mask_of use_mask input_d_corrected =
     (if use_mask then torch_sign input_d_corrected
      else torch_sign (add_scalar input_d_corrected 1))"

text \<open>The expression both branches of the loop body compute for one round.\<close>

definition round_loss :: "tensor \<Rightarrow> tensor \<Rightarrow> tensor \<Rightarrow> tensor \<Rightarrow> scalar" where
  "round_loss val_mask input_d_corrected input_d out_layer =
     fdiv (torch_norm (torch_sub (torch_mul val_mask out_layer)
                                 (torch_mul val_mask input_d_corrected)))
          (torch_norm (torch_mul val_mask input_d))"

text \<open>
  The loop over \<^verbatim>\<open>range(len(output_layer_list))\<close>. The variable \<^verbatim>\<open>loss_value\<close> is
  unbound (\<open>None\<close>) until round 0 assigns it; \<^verbatim>\<open>+=\<close> on an unbound name raises.
\<close>

fun loss_rounds ::
  "tensor \<Rightarrow> tensor \<Rightarrow> tensor \<Rightarrow> tensor list \<Rightarrow> nat list \<Rightarrow> scalar option
   \<Rightarrow> error + scalar option" where
  "loss_rounds val_mask corrected input_d outs [] loss_value = Inr loss_value"
| "loss_rounds val_mask corrected input_d outs (i # rest) loss_value =
     (let out_layer = outs ! i in
      if i = 0 then
        loss_rounds val_mask corrected input_d outs rest
          (Some (round_loss val_mask corrected input_d out_layer))
      else
        (case loss_value of
           None \<Rightarrow> Inl UnboundLocalError
         | Some l \<Rightarrow>
             loss_rounds val_mask corrected input_d outs rest
               (Some (fadd l (round_loss val_mask corrected input_d out_layer)))))"

definition loss :: "tensor list \<Rightarrow> tensor \<Rightarrow> bool \<Rightarrow> tensor \<Rightarrow> error + scalar" where
  "loss output_layer_list input_d use_mask batch_effect_removal_layer =
     (let input_d_corrected = torch_sub input_d batch_effect_removal_layer;
          val_mask = val_mask_of use_mask input_d_corrected
      in case loss_rounds val_mask input_d_corrected input_d output_layer_list
                [0..<length output_layer_list] None of
           Inl e \<Rightarrow> Inl e
         | Inr None \<Rightarrow> Inl UnboundLocalError
         | Inr (Some loss_value) \<Rightarrow> Inr loss_value)"

text \<open>
  The loss as the specification words it: the plain sum, over the rounds in order, of
  each round's normalised residual norm.
\<close>

definition sum_scalars :: "scalar list \<Rightarrow> scalar" where
  "sum_scalars cs = foldr fadd cs (Fin 0)"

definition loss_spec :: "tensor list \<Rightarrow> tensor \<Rightarrow> bool \<Rightarrow> tensor \<Rightarrow> scalar" where
  "loss_spec outs raw use_mask correction =
     (let corrected = torch_sub raw correction;
          mask = val_mask_of use_mask corrected
      in sum_scalars (map (round_loss mask corrected raw) outs))"

section \<open>The recurrent autoencoder\<close>

text \<open>
  The modules of the base class \<^verbatim>\<open>network.AutoEncoder\<close> and the batch-effect layer are
  used by \<^verbatim>\<open>forward\<close> only through the functions they compute with their current
  weights; these functions are parameters of the model. \<open>imputation_net nets k\<close> is the
  function computed by the \<open>k\<close>-th imputation subnetwork that was built, whose weights
  are the ones drawn when it was built.
\<close>

record networks =
  batch_effect_layer :: "tensor \<Rightarrow> tensor"
  encode :: "tensor \<Rightarrow> tensor"
  latent_layer :: "tensor \<Rightarrow> tensor"
  decode :: "tensor \<Rightarrow> tensor"
  output_layer :: "tensor \<Rightarrow> tensor"
  imputation_net :: "nat \<Rightarrow> tensor \<Rightarrow> tensor"

text \<open>
  The attributes of a \<^verbatim>\<open>scScope\<close> instance that \<^verbatim>\<open>forward\<close> reads and writes. An
  attribute that was never assigned is \<open>None\<close>. \<open>imputation_model\<close> holds the identity
  of the module object it refers to. \<open>constructed\<close> counts the imputation subnetworks
  built for this instance so far and names the next one: each run of lines 55 to 64
  makes a new module object with newly drawn weights.
\<close>

record scScope =
  t :: int
  input :: "tensor option"
  batch_effect_removal_layer :: "tensor option"
  imputation_model :: "nat option"
  constructed :: nat

text \<open>\<^verbatim>\<open>scScope.__init__\<close>: only \<^verbatim>\<open>self.t\<close> of these attributes is assigned.\<close>

definition scScope_init :: "int \<Rightarrow> scScope" where
  "scScope_init t_arg =
     \<lparr>t = t_arg, input = None, batch_effect_removal_layer = None,
      imputation_model = None, constructed = 0\<rparr>"

text \<open>Lines 55 to 64: build the two layers and assign \<^verbatim>\<open>self.imputation_model\<close>.\<close>

definition construct_imputation :: "scScope \<Rightarrow> scScope" where
  "construct_imputation self =
     self\<lparr>imputation_model := Some (constructed self),
          constructed := Suc (constructed self)\<rparr>"

text \<open>The local variables of \<^verbatim>\<open>forward\<close> together with the instance.\<close>

record frame =
  model :: scScope
  x_var :: tensor
  output_var :: "tensor option"
  output_list :: "tensor list"
  latent_features_list :: "tensor list"

text \<open>A read of an attribute raises when the attribute was never assigned.\<close>

definition getattr :: "'a option \<Rightarrow> error + 'a" where
  "getattr a = (case a of None \<Rightarrow> Inl AttributeError | Some v \<Rightarrow> Inr v)"

text \<open>
  Line 67, \<^verbatim>\<open>torch.mul(1 - torch.sign(self.input), imputed)\<close>: the imputed estimate
  as it enters the merge with the raw input.
\<close>

definition masked_imputed :: "tensor \<Rightarrow> tensor \<Rightarrow> tensor" where
  "masked_imputed inp imputed = torch_mul (rsub_scalar 1 (torch_sign inp)) imputed"

text \<open>
  Lines 50 to 68: the input of round \<open>i\<close>. Round 0 rectifies the corrected input; a later
  round merges the imputed estimate into the raw input first, and round 1 builds the
  imputation subnetwork before it uses it.
\<close>

definition round_input :: "networks \<Rightarrow> nat \<Rightarrow> frame \<Rightarrow> error + scScope \<times> tensor" where
  "round_input nets i fr =
     (if i = 0 then
        (case getattr (batch_effect_removal_layer (model fr)) of
           Inl e \<Rightarrow> Inl e
         | Inr bc \<Rightarrow> Inr (model fr, relu (torch_sub (x_var fr) bc)))
      else
        (let self = (if i = 1 then construct_imputation (model fr) else model fr) in
         case getattr (imputation_model self) of
           Inl e \<Rightarrow> Inl e
         | Inr k \<Rightarrow>
             (case output_var fr of
                None \<Rightarrow> Inl UnboundLocalError
              | Some output \<Rightarrow>
                  (let imputed = imputation_net nets k output in
                   case getattr (input self) of
                     Inl e \<Rightarrow> Inl e
                   | Inr inp \<Rightarrow>
                       (let imputed = masked_imputed inp imputed in
                        case getattr (batch_effect_removal_layer self) of
                          Inl e \<Rightarrow> Inl e
                        | Inr bc \<Rightarrow>
                            Inr (self, relu (torch_sub (torch_add imputed inp) bc)))))))"

text \<open>The loop over \<^verbatim>\<open>range(self.t)\<close>, lines 49 to 74.\<close>

fun forward_rounds :: "networks \<Rightarrow> nat list \<Rightarrow> frame \<Rightarrow> error + frame" where
  "forward_rounds nets [] fr = Inr fr"
| "forward_rounds nets (i # rest) fr =
     (case round_input nets i fr of
        Inl e \<Rightarrow> Inl e
      | Inr (self, x1) \<Rightarrow>
          (let x2 = encode nets x1;
               latent_features = latent_layer nets x2;
               x3 = decode nets latent_features;
               output = output_layer nets x3
           in forward_rounds nets rest
                \<lparr>model = self, x_var = x3, output_var = Some output,
                 output_list = output_list fr @ [output],
                 latent_features_list = latent_features_list fr @ [latent_features]\<rparr>))"

text \<open>
  \<^verbatim>\<open>scScope.forward\<close>. The result is the returned triple and the instance as the call
  leaves it.
\<close>

definition forward ::
  "networks \<Rightarrow> scScope \<Rightarrow> tensor \<Rightarrow> tensor
   \<Rightarrow> error + (tensor list \<times> tensor list \<times> tensor) \<times> scScope" where
  "forward nets self x exp_batch_input =
     (let self0 = self\<lparr>input := Some x,
                       batch_effect_removal_layer :=
                         Some (batch_effect_layer nets exp_batch_input)\<rparr>
      in case forward_rounds nets [0..<nat (t self0)]
                \<lparr>model = self0, x_var = x, output_var = None,
                 output_list = [], latent_features_list = []\<rparr> of
           Inl e \<Rightarrow> Inl e
         | Inr fr \<Rightarrow>
             (case getattr (batch_effect_removal_layer (model fr)) of
                Inl e \<Rightarrow> Inl e
              | Inr bc \<Rightarrow>
                  Inr ((output_list fr, latent_features_list fr, bc), model fr)))"

text \<open>Several forward calls on one instance, one after the other.\<close>

fun forward_calls ::
  "scScope \<Rightarrow> (networks \<times> tensor \<times> tensor) list \<Rightarrow> error + scScope" where
  "forward_calls self [] = Inr self"
| "forward_calls self ((nets, x, b) # calls) =
     (case forward nets self x b of
        Inl e \<Rightarrow> Inl e
      | Inr (res, self') \<Rightarrow> forward_calls self' calls)"

text \<open>
  Modelled from the spec: \<^verbatim>\<open>network.AutoEncoder\<close> and \<^verbatim>\<open>torch.nn.Module\<close> are not under
  \<^verbatim>\<open>src/\<close>. The specification names the encoder, the latent layer, the decoder and the
  output projection as the modules of the base class. A module assigned to an attribute
  is registered with the instance: the batch-effect layer by \<^verbatim>\<open>__init__\<close> (line 41),
  the imputation subnetwork by \<^verbatim>\<open>forward\<close> (line 63). \<^verbatim>\<open>parameters\<close> lists the
  registered modules that hold the instance's parameters.
\<close>

datatype component =
  Encoder | Latent_layer | Decoder | Output_projection | Batch_effect_layer
  | Imputation_subnetwork nat

definition parameters :: "scScope \<Rightarrow> component list" where
  "parameters self =
     [Encoder, Latent_layer, Decoder, Output_projection, Batch_effect_layer] @
     (case imputation_model self of None \<Rightarrow> [] | Some k \<Rightarrow> [Imputation_subnetwork k])"

section \<open>Batch indicators and prediction\<close>

text \<open>
  A two-dimensional NumPy array of batch labels is the list of its rows. \<^verbatim>\<open>len(np.unique(a))\<close> is the
  number of distinct entries.
\<close>

type_synonym labels = "int list list"

definition np_unique_len :: "labels \<Rightarrow> nat" where
  "np_unique_len a = length (remdups (concat a))"

text \<open>\<^verbatim>\<open>np.ones_like\<close> keeps the shape of its argument.\<close>

definition ones_like :: "labels \<Rightarrow> tensor" where
  "ones_like a = map (map (\<lambda>l. 1)) a"

text \<open>
  An index \<open>j\<close> into an axis of size \<open>k\<close> is in bounds from \<open>-k\<close> to \<open>k - 1\<close>, and a
  negative index counts from the end.
\<close>

definition in_bounds :: "nat \<Rightarrow> int \<Rightarrow> bool" where
  "in_bounds k j = (- int k \<le> j \<and> j < int k)"

definition column_of :: "nat \<Rightarrow> int \<Rightarrow> nat" where
  "column_of k j = nat (if j < 0 then j + int k else j)"

text \<open>
  \<^verbatim>\<open>a[:, idx] = 1\<close> for an array \<open>a\<close> with \<open>k\<close> columns and an integer index array with
  the entries \<open>idx\<close>: every index is checked first, then each indexed column is set to 1
  in every row.
\<close>

definition assign_columns :: "nat \<Rightarrow> int list \<Rightarrow> tensor \<Rightarrow> error + tensor" where
  "assign_columns k idx a =
     (if list_all (in_bounds k) idx
      then Inr (map (\<lambda>row. foldl (\<lambda>r j. r[column_of k j := 1]) row idx) a)
      else Inl IndexError)"

text \<open>
  Lines 94 and 95, and 155 and 156: a zero array of \<open>n\<close> rows and \<open>k\<close> columns, assigned
  through the index array \<^verbatim>\<open>batch.reshape((1, -1)) - 1\<close>.
\<close>

definition one_hot_matrix :: "nat \<Rightarrow> nat \<Rightarrow> labels \<Rightarrow> error + tensor" where
  "one_hot_matrix n k batch =
     assign_columns k (map (\<lambda>l. l - 1) (concat batch)) (replicate n (replicate k 0))"

text \<open>
  The fields of the dataset that \<^verbatim>\<open>scScopeTrainer.__init__\<close> reads. The class
  \<^verbatim>\<open>GeneExpressionDataset\<close> is not under \<^verbatim>\<open>src/\<close>; its fields are taken as given.
\<close>

record gene_dataset =
  nb_cells :: nat
  num_batches :: nat
  batch_indices :: labels

text \<open>Lines 93 to 98 of \<^verbatim>\<open>scScopeTrainer.__init__\<close>.\<close>

definition trainer_one_hot_batches :: "gene_dataset \<Rightarrow> error + tensor" where
  "trainer_one_hot_batches ds =
     (if num_batches ds > 1
      then one_hot_matrix (nb_cells ds) (num_batches ds) (batch_indices ds)
      else Inr (ones_like (batch_indices ds)))"

text \<open>Lines 154 to 158 of \<^verbatim>\<open>scScopeTrainer.predict\<close>.\<close>

definition predict_one_hot_batches :: "labels \<Rightarrow> error + tensor" where
  "predict_one_hot_batches batch_data =
     (if np_unique_len batch_data > 1
      then one_hot_matrix (length batch_data) (np_unique_len batch_data) batch_data
      else Inr (ones_like batch_data))"

text \<open>
  The values \<^verbatim>\<open>predict\<close> calls \<^verbatim>\<open>.detach()\<close> on: a tensor has the method, a Python list
  has not.
\<close>

datatype pyobj = TensorObj tensor | ListObj "tensor list"

fun detach :: "pyobj \<Rightarrow> error + tensor" where
  "detach (TensorObj a) = Inr a"
| "detach (ListObj xs) = Inl AttributeError"

text \<open>The comprehension \<^verbatim>\<open>[l.detach().numpy() for l in latent_layer]\<close>.\<close>

fun detach_each :: "tensor list \<Rightarrow> error + tensor list" where
  "detach_each [] = Inr []"
| "detach_each (l # ls) =
     (case detach (TensorObj l) of
        Inl e \<Rightarrow> Inl e
      | Inr a \<Rightarrow> (case detach_each ls of Inl e \<Rightarrow> Inl e | Inr as \<Rightarrow> Inr (a # as)))"

text \<open>\<^verbatim>\<open>scScopeTrainer.predict\<close>, on the CPU (\<^verbatim>\<open>use_cuda\<close> false).\<close>

definition predict ::
  "networks \<Rightarrow> scScope \<Rightarrow> tensor \<Rightarrow> labels
   \<Rightarrow> error + (tensor \<times> tensor list \<times> tensor) \<times> scScope" where
  "predict nets self input_d batch_data =
     (case predict_one_hot_batches batch_data of
        Inl e \<Rightarrow> Inl e
      | Inr one_hot_batches \<Rightarrow>
          (case forward nets self input_d one_hot_batches of
             Inl e \<Rightarrow> Inl e
           | Inr ((output_values, latent_values, batch_removal_layer), self') \<Rightarrow>
               (case detach (ListObj output_values) of
                  Inl e \<Rightarrow> Inl e
                | Inr output_layer_numpy \<Rightarrow>
                    (case detach_each latent_values of
                       Inl e \<Rightarrow> Inl e
                     | Inr latent_layer_numpy \<Rightarrow>
                         (case detach (TensorObj batch_removal_layer) of
                            Inl e \<Rightarrow> Inl e
                          | Inr batch_removal_layer_numpy \<Rightarrow>
                              Inr ((output_layer_numpy, latent_layer_numpy,
                                    batch_removal_layer_numpy), self'))))))"

section \<open>Auxiliary definitions\<close>

text \<open>The value of \<^verbatim>\<open>loss_value\<close> after the rounds with the given contributions.\<close>

definition left_sum :: "scalar list \<Rightarrow> scalar option" where
  "left_sum cs = (case cs of [] \<Rightarrow> None | c # cs' \<Rightarrow> Some (foldl fadd c cs'))"

text \<open>
  The number of entries a mask selects: the entries with the value 1.
\<close>

definition selected_count :: "tensor \<Rightarrow> nat" where
  "selected_count a = length (filter (\<lambda>v. v = 1) (concat a))"

text \<open>
  The input the encoder receives in round \<open>i\<close>, given the raw input, the batch
  correction, the imputation subnetwork in use and the outputs of the earlier rounds.
\<close>

definition encoder_input ::
  "networks \<Rightarrow> tensor \<Rightarrow> tensor \<Rightarrow> nat \<Rightarrow> tensor list \<Rightarrow> nat \<Rightarrow> tensor" where
  "encoder_input nets raw bc k outs i =
     (if i = 0 then relu (torch_sub raw bc)
      else relu (torch_sub
                  (torch_add (masked_imputed raw (imputation_net nets k (outs ! (i - 1)))) raw)
                  bc))"

text \<open>
  What holds of the frame after the first \<open>n\<close> rounds of a forward call that
  started on the instance \<open>self0\<close> with the raw input \<open>raw\<close> and the correction \<open>bc\<close>.
\<close>

definition rounds_inv ::
  "networks \<Rightarrow> scScope \<Rightarrow> tensor \<Rightarrow> tensor \<Rightarrow> nat \<Rightarrow> frame \<Rightarrow> bool" where
  "rounds_inv nets self0 raw bc n fr =
     (length (output_list fr) = n \<and> length (latent_features_list fr) = n \<and>
      output_var fr = (if n = 0 then None else Some (output_list fr ! (n - 1))) \<and>
      (n = 0 \<longrightarrow> x_var fr = raw) \<and>
      model fr = (if n \<le> 1 then self0 else construct_imputation self0) \<and>
      (\<forall>i<n. latent_features_list fr ! i
                 = latent_layer nets
                     (encode nets
                        (encoder_input nets raw bc (constructed self0) (output_list fr) i)) \<and>
              output_list fr ! i
                 = output_layer nets (decode nets (latent_features_list fr ! i))))"

text \<open>
  An example of the module functions: every module computes the identity.
\<close>

definition example_networks :: networks where
  "example_networks =
     \<lparr>batch_effect_layer = id, encode = id, latent_layer = id, decode = id,
      output_layer = id, imputation_net = (\<lambda>k. id)\<rparr>"

text \<open>
  The row with a 1 in column \<open>label - 1\<close> for each label that occurs anywhere in
  the array of batch labels, and 0 in the other columns.
\<close>

definition indicator_row :: "nat \<Rightarrow> labels \<Rightarrow> real list" where
  "indicator_row k batch =
     map (\<lambda>c. if c \<in> set (map (\<lambda>l. column_of k (l - 1)) (concat batch)) then 1 else 0)
       [0..<k]"

section \<open>Properties of the loss\<close>

lemma fadd_Fin0_right: "fadd x (Fin 0) = x"
  by (cases x) simp_all

lemma fadd_assoc: "fadd (fadd x y) z = fadd x (fadd y z)"
  by (cases x; cases y; cases z) simp_all

lemma foldl_fadd_foldr: "foldl fadd c cs = fadd c (foldr fadd cs (Fin 0))"
  by (induction cs arbitrary: c) (simp_all add: fadd_Fin0_right fadd_assoc)

lemma loss_rounds_append:
  "loss_rounds m c x outs (is1 @ is2) lv =
     (case loss_rounds m c x outs is1 lv of Inl e \<Rightarrow> Inl e
      | Inr lv' \<Rightarrow> loss_rounds m c x outs is2 lv')"
  by (induction is1 arbitrary: lv) (simp_all add: Let_def split: option.splits)

lemma left_sum_snoc:
  "left_sum (cs @ [c]) = Some (case left_sum cs of None \<Rightarrow> c | Some l \<Rightarrow> fadd l c)"
  by (cases cs) (simp_all add: left_sum_def)

lemma loss_rounds_upt:
  "n \<le> length outs \<Longrightarrow>
   loss_rounds m c x outs [0..<n] None = Inr (left_sum (map (round_loss m c x) (take n outs)))"
proof (induction n)
  case 0
  show ?case by (simp add: left_sum_def)
next
  case (Suc n)
  then have n: "n < length outs" by simp
  have tk: "take (Suc n) outs = take n outs @ [outs ! n]"
    using n by (simp add: take_Suc_conv_app_nth)
  have IH: "loss_rounds m c x outs [0..<n] None
              = Inr (left_sum (map (round_loss m c x) (take n outs)))"
    using Suc.IH n by simp
  have up: "[0..<Suc n] = [0..<n] @ [n]" by simp
  show ?case
  proof (cases n)
    case 0
    then show ?thesis using n by (simp add: left_sum_def take_Suc_conv_app_nth)
  next
    case (Suc k)
    with n have "take n outs \<noteq> []" by auto
    then obtain l where l: "left_sum (map (round_loss m c x) (take n outs)) = Some l"
      by (cases "take n outs") (simp_all add: left_sum_def)
    have "loss_rounds m c x outs [0..<Suc n] None
            = loss_rounds m c x outs [n] (Some l)"
      unfolding up loss_rounds_append IH l by simp
    also have "\<dots> = Inr (Some (fadd l (round_loss m c x (outs ! n))))"
      using Suc by (simp add: Let_def)
    also have "\<dots> = Inr (left_sum (map (round_loss m c x) (take (Suc n) outs)))"
      unfolding tk by (simp add: left_sum_snoc l)
    finally show ?thesis .
  qed
qed


lemma loss_foldl:
  assumes "outs \<noteq> []"
  shows "loss outs raw um bc =
           Inr (foldl fadd
                  (round_loss (val_mask_of um (torch_sub raw bc)) (torch_sub raw bc) raw (hd outs))
                  (map (round_loss (val_mask_of um (torch_sub raw bc)) (torch_sub raw bc) raw)
                     (tl outs)))"
proof -
  obtain o1 rest where outs: "outs = o1 # rest" using assms by (cases outs) auto
  show ?thesis
    unfolding loss_def Let_def
    by (simp only: loss_rounds_upt [OF order_refl] take_all [OF order_refl])
       (simp add: outs left_sum_def)
qed

lemma torch_norm_nonneg: "0 \<le> torch_norm a"
  unfolding torch_norm_def by (rule real_sqrt_ge_zero) (rule sum_list_nonneg, auto)

lemma torch_sub_self_entries: "x \<in> set (concat (torch_sub a a)) \<Longrightarrow> x = 0"
  by (auto simp: torch_sub_def ew2_def zip_same_conv_map)

lemma sum_squares_zero: "(\<And>x. x \<in> set xs \<Longrightarrow> x = (0::real)) \<Longrightarrow> sum_list (map (\<lambda>v. v * v) xs) = 0"
  by (induction xs) simp_all

lemma torch_norm_sub_self: "torch_norm (torch_sub a a) = 0"
  unfolding torch_norm_def by (simp only: sum_squares_zero [OF torch_sub_self_entries] real_sqrt_zero)

lemma torch_norm_single: "torch_norm [[a]] = \<bar>a\<bar>"
  by (simp add: torch_norm_def)

lemma map2_mul_idem:
  "(\<And>v. v \<in> set xs \<Longrightarrow> v * v = v) \<Longrightarrow>
   map2 (\<lambda>u v. u * v) xs (map2 (\<lambda>u v. u * v) xs ys) = map2 (\<lambda>u v. u * v) xs (ys :: real list)"
proof (induction xs arbitrary: ys)
  case Nil
  show ?case by simp
next
  case (Cons x xs)
  show ?case
  proof (cases ys)
    case Nil
    then show ?thesis by simp
  next
    case (Cons y ys')
    have "x * x = x" using Cons.prems by simp
    then have "x * (x * y) = x * y" by (simp add: mult.assoc [symmetric])
    moreover have "map2 (\<lambda>u v. u * v) xs (map2 (\<lambda>u v. u * v) xs ys')
                     = map2 (\<lambda>u v. u * v) xs ys'"
      using Cons.IH Cons.prems by simp
    ultimately show ?thesis using Cons by simp
  qed
qed

lemma torch_mul_idem:
  "(\<And>row v. row \<in> set m \<Longrightarrow> v \<in> set row \<Longrightarrow> v * v = v) \<Longrightarrow>
   torch_mul m (torch_mul m c) = torch_mul m c"
proof (induction m arbitrary: c)
  case Nil
  show ?case by (simp add: torch_mul_def ew2_def)
next
  case (Cons row m)
  show ?case
  proof (cases c)
    case Nil
    then show ?thesis by (simp add: torch_mul_def ew2_def)
  next
    case (Cons crow c')
    have r: "map2 (\<lambda>u v. u * v) row (map2 (\<lambda>u v. u * v) row crow)
               = map2 (\<lambda>u v. u * v) row crow"
    proof (rule map2_mul_idem)
      fix v assume "v \<in> set row"
      then show "v * v = v" using Cons.prems [of row v] by simp
    qed
    have "torch_mul m (torch_mul m c') = torch_mul m c'"
    proof (rule Cons.IH)
      fix r v assume "r \<in> set m" "v \<in> set r"
      then show "v * v = v" using Cons.prems [of r v] by simp
    qed
    then show ?thesis using Cons r by (simp add: torch_mul_def ew2_def)
  qed
qed

lemma val_mask_entry:
  assumes "row \<in> set (val_mask_of um c)" and "v \<in> set row"
  shows "v = - 1 \<or> v = 0 \<or> v = 1"
proof -
  obtain a where "val_mask_of um c = ew1 sgn a"
    by (cases um) (simp_all add: val_mask_of_def torch_sign_def)
  with assms obtain w where "v = sgn w" by (auto simp: ew1_def)
  then show ?thesis by (simp add: sgn_if)
qed

lemma torch_norm_pair_left: "torch_norm [[a, 0]] = \<bar>a\<bar>"
  by (simp add: torch_norm_def)

lemma torch_norm_pair_right: "torch_norm [[0, a]] = \<bar>a\<bar>"
  by (simp add: torch_norm_def)

text \<open>
  Claim C3, as amended. For every non-empty sequence of round outputs, raw input, masking
  mode and batch correction, the loss is the unweighted sum over the rounds of
  \<open>norm (mask * output - mask * (raw - correction)) / norm (mask * raw)\<close>: the numerator
  uses the corrected input, the denominator the raw input. For two rounds, when the
  output of round 2 is the masked corrected target \<open>mask * (raw - correction)\<close>, no
  entry of the mask is negative and the denominator is not zero, the loss is the
  contribution of round 1.
\<close>

theorem loss_unweighted_sum:
  assumes "outs \<noteq> []"
  shows "loss outs raw um bc = Inr (loss_spec outs raw um bc) \<and>
         (o2 = torch_mul (val_mask_of um (torch_sub raw bc)) (torch_sub raw bc) \<and>
          (\<forall>row \<in> set (val_mask_of um (torch_sub raw bc)). \<forall>v \<in> set row. 0 \<le> v) \<and>
          torch_norm (torch_mul (val_mask_of um (torch_sub raw bc)) raw) \<noteq> 0 \<longrightarrow>
          loss [o1, o2] raw um bc
            = Inr (round_loss (val_mask_of um (torch_sub raw bc)) (torch_sub raw bc) raw o1))"
proof
  obtain a rest where outs: "outs = a # rest" using assms by (cases outs) auto
  have "outs \<noteq> []" by fact
  from loss_foldl [OF this, of raw um bc]
  show "loss outs raw um bc = Inr (loss_spec outs raw um bc)"
    by (simp add: loss_spec_def sum_scalars_def Let_def outs foldl_fadd_foldr)
next
  let ?m = "val_mask_of um (torch_sub raw bc)"
  let ?c = "torch_sub raw bc"
  show "o2 = torch_mul ?m ?c \<and> (\<forall>row \<in> set ?m. \<forall>v \<in> set row. 0 \<le> v) \<and>
        torch_norm (torch_mul ?m raw) \<noteq> 0 \<longrightarrow>
        loss [o1, o2] raw um bc = Inr (round_loss ?m ?c raw o1)"
  proof
    assume h: "o2 = torch_mul ?m ?c \<and> (\<forall>row \<in> set ?m. \<forall>v \<in> set row. 0 \<le> v) \<and>
               torch_norm (torch_mul ?m raw) \<noteq> 0"
    have idem: "v * v = v" if "row \<in> set ?m" and "v \<in> set row" for row v
    proof -
      have "0 \<le> v" using h that by blast
      with val_mask_entry [OF that] show ?thesis by auto
    qed
    have same: "torch_mul ?m o2 = torch_mul ?m ?c"
      using h torch_mul_idem [of ?m ?c] idem by simp
    have z: "torch_norm (torch_sub (torch_mul ?m ?c) (torch_mul ?m ?c)) = 0"
      by (rule torch_norm_sub_self)
    have "round_loss ?m ?c raw o2 = Fin 0"
      using h z same by (simp add: round_loss_def fdiv_def)
    then show "loss [o1, o2] raw um bc = Inr (round_loss ?m ?c raw o1)"
      by (simp add: loss_foldl fadd_Fin0_right)
  qed
qed

theorem loss_unweighted_sum_witness:
  "[[[5]], [[1]]] \<noteq> ([] :: tensor list) \<and>
   [[1]] = torch_mul (val_mask_of True (torch_sub [[2]] [[1]])) (torch_sub [[2]] [[1]]) \<and>
   list_all (list_all (\<lambda>v. 0 \<le> v)) (val_mask_of True (torch_sub [[2]] [[1]])) \<and>
   torch_norm (torch_mul (val_mask_of True (torch_sub [[2]] [[1]])) [[2]]) \<noteq> 0 \<and>
   loss [[[5]], [[1]]] [[2]] True [[1]] = Inr (loss_spec [[[5]], [[1]]] [[2]] True [[1]]) \<and>
   loss [[[5]], [[1]]] [[2]] True [[1]] = Inr (Fin 2)"
proof -
  let ?m = "val_mask_of True (torch_sub [[2]] [[1]])"
  let ?c = "torch_sub [[2]] [[1]]"
  have h1: "[[[5]], [[1]]] \<noteq> ([] :: tensor list)" by simp
  have c: "?c = [[1]]"
    by (simp add: torch_sub_def ew2_def)
  have m: "val_mask_of True [[1]] = [[1]]"
    by (simp add: val_mask_of_def torch_sign_def ew1_def)
  have h2: "torch_norm (torch_mul ?m [[2]]) \<noteq> 0"
    unfolding c m by (simp add: torch_mul_def ew2_def torch_norm_single)
  have h3: "[[1]] = torch_mul ?m ?c"
    unfolding c m by (simp add: torch_mul_def ew2_def)
  have h4: "\<forall>row \<in> set ?m. \<forall>v \<in> set row. 0 \<le> v"
    unfolding c m by simp
  have h4': "list_all (list_all (\<lambda>v. 0 \<le> v)) ?m"
    unfolding c m by simp
  have r: "round_loss ?m ?c [[2]] [[5]] = Fin 2"
    unfolding c m
    by (simp add: round_loss_def torch_mul_def torch_sub_def ew2_def torch_norm_single fdiv_def)
  from loss_unweighted_sum [OF h1, of "[[2]]" True "[[1]]" "[[1]]" "[[5]]"] h2 h3 h4
  have "loss [[[5]], [[1]]] [[2]] True [[1]] = Inr (loss_spec [[[5]], [[1]]] [[2]] True [[1]])"
    and "loss [[[5]], [[1]]] [[2]] True [[1]] = Inr (round_loss ?m ?c [[2]] [[5]])"
    by blast+
  with h1 h2 h3 h4' r show ?thesis by simp
qed

text \<open>
  Claim C3 as stated fails in two ways. With an all-zero raw input, a zero correction and
  masking off, the mask is 1 and the denominator 0: round 1 with output 5 contributes an
  infinity, round 2 with the output equal to the masked target contributes NaN, and the
  loss is NaN, not the contribution of round 1. With the raw input (0, 3), the correction
  (1, 0) and masking on, the mask is (-1, 1) and the denominator 3: round 1 with output
  (-1, 13) contributes 10/3, round 2 with the output equal to the masked target (1, 3)
  contributes 2/3, and the loss is 4.
\<close>

theorem loss_sum_zero_denominator_counterexample:
  "[[0]] = torch_mul (val_mask_of False (torch_sub [[0]] [[0]])) (torch_sub [[0]] [[0]]) \<and>
   loss [[[5]], [[0]]] [[0]] False [[0]] = Inr NaN \<and>
   round_loss (val_mask_of False (torch_sub [[0]] [[0]])) (torch_sub [[0]] [[0]]) [[0]] [[5]]
     = PInf \<and>
   [[1, 3]]
     = torch_mul (val_mask_of True (torch_sub [[0, 3]] [[1, 0]])) (torch_sub [[0, 3]] [[1, 0]]) \<and>
   torch_norm (torch_mul (val_mask_of True (torch_sub [[0, 3]] [[1, 0]])) [[0, 3]]) = 3 \<and>
   loss [[[- 1, 13]], [[1, 3]]] [[0, 3]] True [[1, 0]] = Inr (Fin 4) \<and>
   round_loss (val_mask_of True (torch_sub [[0, 3]] [[1, 0]])) (torch_sub [[0, 3]] [[1, 0]])
     [[0, 3]] [[- 1, 13]] = Fin (10 / 3)"
  by (simp add: loss_foldl val_mask_of_def torch_sub_def torch_mul_def torch_sign_def
        add_scalar_def ew1_def ew2_def torch_norm_single torch_norm_pair_left
        torch_norm_pair_right round_loss_def fdiv_def)

lemma fadd_not_finite_left: "\<not> is_finite x \<Longrightarrow> \<not> is_finite (fadd x y)"
  by (cases x; cases y) simp_all

lemma foldl_fadd_not_finite: "\<not> is_finite c \<Longrightarrow> \<not> is_finite (foldl fadd c cs)"
  by (induction cs arbitrary: c) (simp_all add: fadd_not_finite_left)

lemma fdiv_zero_not_finite: "\<not> is_finite (fdiv a 0)"
  by (simp add: fdiv_def)

text \<open>
  Claim C6. When the denominator \<open>norm (mask * raw)\<close> is zero and there is at least one
  round, the loss raises no error and returns a scalar that is not finite.
\<close>

theorem loss_zero_denominator_not_finite:
  assumes "outs \<noteq> []"
    and "torch_norm (torch_mul (val_mask_of um (torch_sub raw bc)) raw) = 0"
  shows "\<exists>v. loss outs raw um bc = Inr v \<and> \<not> is_finite v"
proof -
  have "\<not> is_finite (round_loss (val_mask_of um (torch_sub raw bc)) (torch_sub raw bc) raw
                        (hd outs))"
    unfolding round_loss_def assms(2) by (rule fdiv_zero_not_finite)
  then show ?thesis
    unfolding loss_foldl [OF assms(1)] by (simp add: foldl_fadd_not_finite)
qed

theorem loss_zero_denominator_not_finite_witness:
  "[[[5]]] \<noteq> ([] :: tensor list) \<and>
   torch_norm (torch_mul (val_mask_of False (torch_sub [[0]] [[0]])) [[0]]) = 0 \<and>
   (\<exists>v. loss [[[5]]] [[0]] False [[0]] = Inr v \<and> \<not> is_finite v)"
  using loss_zero_denominator_not_finite [of "[[[5]]]" False "[[0]]" "[[0]]"]
  by (simp add: val_mask_of_def torch_sub_def torch_mul_def torch_sign_def
        add_scalar_def ew1_def ew2_def torch_norm_single)

section \<open>Properties of the imputation merge and of the mask\<close>

lemma ew1_nth: "r < length a \<Longrightarrow> c < length (a ! r) \<Longrightarrow> ew1 f a ! r ! c = f (a ! r ! c)"
  by (simp add: ew1_def)

lemma ew1_shape: "map length (ew1 f a) = map length a"
  by (simp add: ew1_def)

lemma ew2_nth:
  assumes "map length a = map length b" and "r < length b" and "c < length (b ! r)"
  shows "ew2 f a b ! r ! c = f (a ! r ! c) (b ! r ! c)"
proof -
  have la: "length a = length b" using assms(1) by (metis length_map)
  have "length (a ! r) = length (b ! r)"
    using assms(1,2) la by (metis nth_map)
  then show ?thesis using assms la by (simp add: ew2_def)
qed

lemma ew2_shape: "map length a = map length b \<Longrightarrow> map length (ew2 f a b) = map length b"
proof (induction a arbitrary: b)
  case Nil
  then show ?case by (simp add: ew2_def)
next
  case (Cons x xs)
  then obtain y ys where b: "b = y # ys" by (cases b) auto
  with Cons show ?case by (simp add: ew2_def)
qed

text \<open>
  Claim C4. For a raw input without negative entries and an imputed estimate of the same
  shape, \<open>imputed * (1 - sign input)\<close> is exactly 0 at every entry where the raw input
  is not zero, so the merged value there is the observed value; at an entry that is
  exactly zero it is the imputed estimate, which the merged value then takes.
\<close>

theorem imputation_merge_keeps_observed:
  assumes "map length imputed = map length inp"
    and "\<forall>row \<in> set inp. \<forall>v \<in> set row. 0 \<le> v"
    and "r < length inp" and "c < length (inp ! r)"
  shows "(inp ! r ! c \<noteq> 0 \<longrightarrow>
            masked_imputed inp imputed ! r ! c = 0 \<and>
            torch_add (masked_imputed inp imputed) inp ! r ! c = inp ! r ! c) \<and>
         (inp ! r ! c = 0 \<longrightarrow>
            masked_imputed inp imputed ! r ! c = imputed ! r ! c \<and>
            torch_add (masked_imputed inp imputed) inp ! r ! c = imputed ! r ! c)"
proof -
  let ?w = "rsub_scalar 1 (torch_sign inp)"
  have li: "length imputed = length inp" using assms(1) by (metis length_map)
  have lr: "length (imputed ! r) = length (inp ! r)"
    using assms(1,3) li by (metis nth_map)
  have shape_w: "map length ?w = map length imputed"
    by (simp add: rsub_scalar_def torch_sign_def ew1_shape assms(1))
  have w: "?w ! r ! c = 1 - sgn (inp ! r ! c)"
    using assms(3,4) by (simp add: rsub_scalar_def torch_sign_def ew1_def)
  have mi: "masked_imputed inp imputed ! r ! c = (1 - sgn (inp ! r ! c)) * (imputed ! r ! c)"
    unfolding masked_imputed_def torch_mul_def
    using ew2_nth [OF shape_w, of r c] assms(3,4) li lr w by simp
  have shape_mi: "map length (masked_imputed inp imputed) = map length inp"
    unfolding masked_imputed_def torch_mul_def
    using ew2_shape [OF shape_w] assms(1) by simp
  have mg: "torch_add (masked_imputed inp imputed) inp ! r ! c
              = masked_imputed inp imputed ! r ! c + inp ! r ! c"
    unfolding torch_add_def using ew2_nth [OF shape_mi assms(3,4)] by simp
  have nn: "0 \<le> inp ! r ! c" using assms(2,3,4) by (meson nth_mem)
  show ?thesis
  proof (cases "inp ! r ! c = 0")
    case True
    then show ?thesis by (simp add: mi mg)
  next
    case False
    with nn have "sgn (inp ! r ! c) = 1" by simp
    with False show ?thesis by (simp add: mi mg)
  qed
qed

theorem imputation_merge_keeps_observed_witness:
  "map length [[7, 9]] = map length [[3, 0 :: real]] \<and>
   list_all (list_all (\<lambda>v. 0 \<le> v)) [[3, 0 :: real]] \<and>
   masked_imputed [[3, 0]] [[7, 9]] ! 0 ! 0 = 0 \<and>
   torch_add (masked_imputed [[3, 0]] [[7, 9]]) [[3, 0]] ! 0 ! 0 = 3 \<and>
   masked_imputed [[3, 0]] [[7, 9]] ! 0 ! 1 = 9 \<and>
   torch_add (masked_imputed [[3, 0]] [[7, 9]]) [[3, 0]] ! 0 ! 1 = 9"
  using imputation_merge_keeps_observed [of "[[7, 9]]" "[[3, 0]]" 0 0]
    imputation_merge_keeps_observed [of "[[7, 9]]" "[[3, 0]]" 0 1]
  by simp

lemma filter_length_mono:
  "(\<And>x. x \<in> set xs \<Longrightarrow> P x \<Longrightarrow> Q x) \<Longrightarrow> length (filter P xs) \<le> length (filter Q xs)"
proof (induction xs)
  case Nil
  show ?case by simp
next
  case (Cons x xs)
  then have "length (filter P xs) \<le> length (filter Q xs)" by simp
  moreover have "P x \<Longrightarrow> Q x" using Cons.prems by simp
  ultimately show ?case by auto
qed

lemma selected_count_ew1:
  "selected_count (ew1 f a) = length (filter (\<lambda>v. f v = 1) (concat a))"
proof -
  have "concat (ew1 f a) = map f (concat a)"
    by (simp add: ew1_def map_concat)
  then show ?thesis by (simp add: selected_count_def filter_map comp_def)
qed

lemma selected_count_masks:
  "selected_count (val_mask_of True c) \<le> selected_count (val_mask_of False c)"
proof -
  have on: "selected_count (val_mask_of True c)
              = length (filter (\<lambda>v. sgn v = 1) (concat c))"
    by (simp add: val_mask_of_def torch_sign_def selected_count_ew1)
  have "torch_sign (add_scalar c 1) = ew1 (\<lambda>v. sgn (v + 1)) c"
    by (simp add: torch_sign_def add_scalar_def ew1_def comp_def)
  then have off: "selected_count (val_mask_of False c)
              = length (filter (\<lambda>v. sgn (v + 1) = 1) (concat c))"
    by (simp add: val_mask_of_def selected_count_ew1)
  have "sgn (v + 1) = 1" if "sgn v = 1" for v :: real
  proof -
    from that have "0 < v" by (simp add: sgn_1_pos)
    then show ?thesis by simp
  qed
  then show ?thesis unfolding on off by (intro filter_length_mono) blast
qed

text \<open>
  Claim C5, as amended. With masking on, the mask is the sign of the batch-corrected
  input: 1 where it is positive, 0 where it is zero and -1 where it is negative. With
  masking off it is the sign of the corrected input plus one. The mask with masking off
  selects at least as many entries as the mask with masking on.
\<close>

theorem mask_is_sign:
  assumes "r < length c" and "k < length (c ! r)"
  shows "val_mask_of True c = torch_sign c \<and>
         val_mask_of True c ! r ! k
           = (if 0 < c ! r ! k then 1 else if c ! r ! k = 0 then 0 else - 1) \<and>
         val_mask_of False c = torch_sign (add_scalar c 1) \<and>
         selected_count (val_mask_of True c) \<le> selected_count (val_mask_of False c)"
proof -
  have "val_mask_of True c ! r ! k = sgn (c ! r ! k)"
    using assms by (simp add: val_mask_of_def torch_sign_def ew1_def)
  then have "val_mask_of True c ! r ! k
           = (if 0 < c ! r ! k then 1 else if c ! r ! k = 0 then 0 else - 1)"
    by (simp add: sgn_if)
  then show ?thesis
    using selected_count_masks [of c] by (simp add: val_mask_of_def)
qed

theorem mask_is_sign_witness:
  "(0 :: nat) < length [[4, - 2, 0 :: real]] \<and>
   val_mask_of True [[4, - 2, 0]] ! 0 ! 0 = 1 \<and>
   val_mask_of True [[4, - 2, 0]] ! 0 ! 1 = - 1 \<and>
   val_mask_of True [[4, - 2, 0]] ! 0 ! 2 = 0 \<and>
   selected_count (val_mask_of True [[4, - 2, 0]])
     \<le> selected_count (val_mask_of False [[4, - 2, 0]])"
proof -
  let ?c = "[[4, - 2, 0 :: real]]"
  have r: "0 < length ?c" by simp
  have k0: "0 < length (?c ! 0)" and k1: "1 < length (?c ! 0)" and k2: "2 < length (?c ! 0)"
    by simp_all
  have "val_mask_of True ?c ! 0 ! 0 = (if 0 < ?c ! 0 ! 0 then 1 else if ?c ! 0 ! 0 = 0 then 0 else - 1)"
    using mask_is_sign [OF r k0] by blast
  then have a0: "val_mask_of True ?c ! 0 ! 0 = 1" by simp
  have "val_mask_of True ?c ! 0 ! 1 = (if 0 < ?c ! 0 ! 1 then 1 else if ?c ! 0 ! 1 = 0 then 0 else - 1)"
    using mask_is_sign [OF r k1] by blast
  then have a1: "val_mask_of True ?c ! 0 ! 1 = - 1" by simp
  have "val_mask_of True ?c ! 0 ! 2 = (if 0 < ?c ! 0 ! 2 then 1 else if ?c ! 0 ! 2 = 0 then 0 else - 1)"
    using mask_is_sign [OF r k2] by blast
  then have a2: "val_mask_of True ?c ! 0 ! 2 = 0" by simp
  have cnt: "selected_count (val_mask_of True ?c) \<le> selected_count (val_mask_of False ?c)"
    using mask_is_sign [OF r k0] by blast
  show ?thesis using a0 a1 a2 cnt by simp
qed

text \<open>
  Claim C5 as stated fails at a negative entry of the corrected input: with the raw entry
  0 and the correction 1 the corrected entry is -1, and the mask there is -1, not 0.
\<close>

theorem mask_negative_entry_counterexample:
  "torch_sub [[0]] [[1]] = [[- 1]] \<and>
   val_mask_of True (torch_sub [[0]] [[1]]) ! 0 ! 0 = - 1 \<and>
   val_mask_of True (torch_sub [[0]] [[1]]) ! 0 ! 0 \<noteq> 0"
  by (simp add: val_mask_of_def torch_sub_def torch_sign_def ew1_def ew2_def)

section \<open>Properties of the forward pass\<close>

lemma forward_rounds_append:
  "forward_rounds nets (is1 @ is2) fr =
     (case forward_rounds nets is1 fr of Inl e \<Rightarrow> Inl e
      | Inr fr' \<Rightarrow> forward_rounds nets is2 fr')"
  by (induction is1 arbitrary: fr) (simp_all add: Let_def split: sum.splits prod.splits)

lemma encoder_input_append:
  "i \<le> length outs \<Longrightarrow>
   encoder_input nets raw bc k (outs @ [out]) i = encoder_input nets raw bc k outs i"
  by (auto simp: encoder_input_def nth_append)

lemma round_input_value:
  assumes inv: "rounds_inv nets self0 raw bc n fr"
    and inp: "input self0 = Some raw"
    and bc: "batch_effect_removal_layer self0 = Some bc"
  shows "round_input nets n fr =
           Inr (if n = 0 then self0 else construct_imputation self0,
                encoder_input nets raw bc (constructed self0) (output_list fr) n)"
proof (cases "n = 0")
  case True
  with inv have "model fr = self0" "x_var fr = raw" by (simp_all add: rounds_inv_def)
  with True bc show ?thesis
    by (simp add: round_input_def getattr_def encoder_input_def)
next
  case False
  from inv False have ov: "output_var fr = Some (output_list fr ! (n - 1))"
    by (simp add: rounds_inv_def)
  show ?thesis
  proof (cases "n = 1")
    case True
    with inv have "model fr = self0" by (simp add: rounds_inv_def)
    with True ov inp bc show ?thesis
      by (simp add: round_input_def Let_def getattr_def encoder_input_def
            construct_imputation_def)
  next
    case n1: False
    with False inv have "model fr = construct_imputation self0" by (simp add: rounds_inv_def)
    with False n1 ov inp bc show ?thesis
      by (simp add: round_input_def Let_def getattr_def encoder_input_def
            construct_imputation_def)
  qed
qed

lemma rounds_inv_step:
  assumes inv: "rounds_inv nets self0 raw bc n fr"
    and inp: "input self0 = Some raw"
    and bc: "batch_effect_removal_layer self0 = Some bc"
  shows "\<exists>fr'. forward_rounds nets [n] fr = Inr fr' \<and> rounds_inv nets self0 raw bc (Suc n) fr'"
proof -
  let ?x1 = "encoder_input nets raw bc (constructed self0) (output_list fr) n"
  let ?lat = "latent_layer nets (encode nets ?x1)"
  let ?out = "output_layer nets (decode nets ?lat)"
  let ?self = "if n = 0 then self0 else construct_imputation self0"
  let ?fr' = "\<lparr>model = ?self, x_var = decode nets ?lat, output_var = Some ?out,
               output_list = output_list fr @ [?out],
               latent_features_list = latent_features_list fr @ [?lat]\<rparr>"
  have step: "forward_rounds nets [n] fr = Inr ?fr'"
    by (simp add: round_input_value [OF inv inp bc] Let_def)
  from inv have lo: "length (output_list fr) = n" and ll: "length (latent_features_list fr) = n"
    by (simp_all add: rounds_inv_def)
  have old: "latent_features_list fr ! i
                 = latent_layer nets
                     (encode nets
                        (encoder_input nets raw bc (constructed self0) (output_list fr) i)) \<and>
              output_list fr ! i
                 = output_layer nets (decode nets (latent_features_list fr ! i))"
    if "i < n" for i
    using inv that by (simp add: rounds_inv_def)
  have new: "latent_features_list ?fr' ! i
                 = latent_layer nets
                     (encode nets
                        (encoder_input nets raw bc (constructed self0) (output_list ?fr') i)) \<and>
              output_list ?fr' ! i
                 = output_layer nets (decode nets (latent_features_list ?fr' ! i))"
    if "i < Suc n" for i
  proof (cases "i < n")
    case True
    then show ?thesis
      using old [OF True] lo ll by (simp add: nth_append encoder_input_append)
  next
    case False
    with that have "i = n" by simp
    then show ?thesis using lo ll by (simp add: nth_append encoder_input_append)
  qed
  have "rounds_inv nets self0 raw bc (Suc n) ?fr'"
    unfolding rounds_inv_def using lo ll new by (auto simp: nth_append)
  with step show ?thesis by blast
qed

lemma rounds_inv_upt:
  assumes inp: "input self0 = Some raw"
    and bc: "batch_effect_removal_layer self0 = Some bc"
  shows "\<exists>fr. forward_rounds nets [0..<n]
                 \<lparr>model = self0, x_var = raw, output_var = None,
                  output_list = [], latent_features_list = []\<rparr> = Inr fr \<and>
              rounds_inv nets self0 raw bc n fr"
proof (induction n)
  case 0
  show ?case by (simp add: rounds_inv_def)
next
  case (Suc n)
  then obtain fr where fr: "forward_rounds nets [0..<n]
                 \<lparr>model = self0, x_var = raw, output_var = None,
                  output_list = [], latent_features_list = []\<rparr> = Inr fr"
    and inv: "rounds_inv nets self0 raw bc n fr" by blast
  from rounds_inv_step [OF inv inp bc] obtain fr' where
    "forward_rounds nets [n] fr = Inr fr'" "rounds_inv nets self0 raw bc (Suc n) fr'" by blast
  then show ?case using fr by (simp add: forward_rounds_append)
qed

lemma forward_result:
  fixes nets self x b
  defines "bc \<equiv> batch_effect_layer nets b"
  defines "self0 \<equiv> self\<lparr>input := Some x, batch_effect_removal_layer := Some bc\<rparr>"
  shows "\<exists>outs lats.
           forward nets self x b
             = Inr ((outs, lats, bc),
                    if nat (t self) \<le> 1 then self0 else construct_imputation self0) \<and>
           length outs = nat (t self) \<and> length lats = nat (t self) \<and>
           (\<forall>i<nat (t self).
              lats ! i = latent_layer nets
                           (encode nets (encoder_input nets x bc (constructed self) outs i)) \<and>
              outs ! i = output_layer nets (decode nets (lats ! i)))"
proof -
  have inp: "input self0 = Some x" and b: "batch_effect_removal_layer self0 = Some bc"
    and tt: "t self0 = t self" and cc: "constructed self0 = constructed self"
    by (simp_all add: self0_def)
  from rounds_inv_upt [OF inp b, of nets "nat (t self)"] obtain fr where
    fr: "forward_rounds nets [0..<nat (t self)]
           \<lparr>model = self0, x_var = x, output_var = None,
            output_list = [], latent_features_list = []\<rparr> = Inr fr"
    and inv: "rounds_inv nets self0 x bc (nat (t self)) fr" by blast
  from inv have m: "model fr = (if nat (t self) \<le> 1 then self0 else construct_imputation self0)"
    by (simp add: rounds_inv_def)
  have bm: "batch_effect_removal_layer (model fr) = Some bc"
    unfolding m using b by (simp add: construct_imputation_def)
  have fw: "forward nets self x b = Inr ((output_list fr, latent_features_list fr, bc), model fr)"
    using fr bm tt unfolding forward_def Let_def self0_def [symmetric] bc_def [symmetric]
    by (simp add: getattr_def)
  show ?thesis
    using fw inv unfolding m rounds_inv_def cc by blast
qed

text \<open>
  Claim C7. For every input and batch indicator, and \<open>t\<close> not negative, forward returns
  exactly \<open>t\<close> outputs and \<open>t\<close> latent vectors, in round order, and the batch correction.
  The correction is the value the batch-effect layer gives for the indicator, assigned
  once before the loop; no round changes it, and every round's encoder input is computed
  from this one value.
\<close>

theorem forward_returns_t_rounds:
  assumes "0 \<le> t self"
  shows "\<exists>outs lats self'.
           forward nets self x b = Inr ((outs, lats, batch_effect_layer nets b), self') \<and>
           int (length outs) = t self \<and> int (length lats) = t self \<and>
           batch_effect_removal_layer self' = Some (batch_effect_layer nets b) \<and>
           (\<forall>i<length outs.
              lats ! i = latent_layer nets
                           (encode nets
                              (encoder_input nets x (batch_effect_layer nets b)
                                 (constructed self) outs i)) \<and>
              outs ! i = output_layer nets (decode nets (lats ! i)))"
proof -
  from forward_result [of nets self x b] obtain outs lats where
    fw: "forward nets self x b
             = Inr ((outs, lats, batch_effect_layer nets b),
                    if nat (t self) \<le> 1
                    then self\<lparr>input := Some x,
                              batch_effect_removal_layer := Some (batch_effect_layer nets b)\<rparr>
                    else construct_imputation
                           (self\<lparr>input := Some x,
                                 batch_effect_removal_layer :=
                                   Some (batch_effect_layer nets b)\<rparr>))"
    and lo: "length outs = nat (t self)" and ll: "length lats = nat (t self)"
    and rounds: "\<forall>i<nat (t self).
              lats ! i = latent_layer nets
                           (encode nets
                              (encoder_input nets x (batch_effect_layer nets b)
                                 (constructed self) outs i)) \<and>
              outs ! i = output_layer nets (decode nets (lats ! i))"
    by blast
  let ?self' = "if nat (t self) \<le> 1
                    then self\<lparr>input := Some x,
                              batch_effect_removal_layer := Some (batch_effect_layer nets b)\<rparr>
                    else construct_imputation
                           (self\<lparr>input := Some x,
                                 batch_effect_removal_layer :=
                                   Some (batch_effect_layer nets b)\<rparr>)"
  have a: "int (length outs) = t self" "int (length lats) = t self"
    using lo ll assms by simp_all
  have c: "batch_effect_removal_layer ?self' = Some (batch_effect_layer nets b)"
    by (simp add: construct_imputation_def)
  have d: "\<forall>i<length outs.
              lats ! i = latent_layer nets
                           (encode nets
                              (encoder_input nets x (batch_effect_layer nets b)
                                 (constructed self) outs i)) \<and>
              outs ! i = output_layer nets (decode nets (lats ! i))"
    using rounds lo by simp
  from fw a c d show ?thesis by blast
qed

theorem forward_returns_t_rounds_witness:
  "0 \<le> t (scScope_init 2) \<and>
   (\<exists>outs lats self'.
      forward example_networks (scScope_init 2) [[1]] [[3]]
        = Inr ((outs, lats, [[3]]), self') \<and>
      length outs = 2 \<and> length lats = 2 \<and>
      batch_effect_removal_layer self' = Some [[3]])"
proof -
  have h: "0 \<le> t (scScope_init 2)" by (simp add: scScope_init_def)
  have b: "batch_effect_layer example_networks [[3]] = [[3]]"
    by (simp add: example_networks_def)
  have tt: "t (scScope_init 2) = 2" by (simp add: scScope_init_def)
  from forward_returns_t_rounds [OF h, of example_networks "[[1]]" "[[3]]"]
  obtain outs lats self' where
    "forward example_networks (scScope_init 2) [[1]] [[3]] = Inr ((outs, lats, [[3]]), self')"
    "int (length outs) = 2" "int (length lats) = 2"
    "batch_effect_removal_layer self' = Some [[3]]"
    unfolding b tt by blast
  then show ?thesis using h by auto
qed

text \<open>
  Claim C1, as amended. On an instance with \<open>t\<close> at least 2, every forward call builds
  the imputation subnetwork exactly once, in round 1, and stores it on the instance; every
  later round of that call applies this one subnetwork to the output of the round before.
\<close>

theorem forward_builds_imputation_once_per_call:
  assumes "2 \<le> t self"
  shows "\<exists>outs lats bc self'.
           forward nets self x b = Inr ((outs, lats, bc), self') \<and>
           imputation_model self' = Some (constructed self) \<and>
           constructed self' = Suc (constructed self) \<and>
           (\<forall>i<length outs. 0 < i \<longrightarrow>
              lats ! i = latent_layer nets
                (encode nets
                   (relu (torch_sub
                            (torch_add
                               (masked_imputed x
                                  (imputation_net nets (constructed self) (outs ! (i - 1))))
                               x)
                            bc))))"
proof -
  from forward_result [of nets self x b] obtain outs lats where
    fw: "forward nets self x b
             = Inr ((outs, lats, batch_effect_layer nets b),
                    if nat (t self) \<le> 1
                    then self\<lparr>input := Some x,
                              batch_effect_removal_layer := Some (batch_effect_layer nets b)\<rparr>
                    else construct_imputation
                           (self\<lparr>input := Some x,
                                 batch_effect_removal_layer :=
                                   Some (batch_effect_layer nets b)\<rparr>))"
    and lo: "length outs = nat (t self)"
    and rounds: "\<forall>i<nat (t self).
              lats ! i = latent_layer nets
                           (encode nets
                              (encoder_input nets x (batch_effect_layer nets b)
                                 (constructed self) outs i)) \<and>
              outs ! i = output_layer nets (decode nets (lats ! i))"
    by blast
  have big: "\<not> nat (t self) \<le> 1" using assms by simp
  let ?self' = "construct_imputation
                  (self\<lparr>input := Some x,
                        batch_effect_removal_layer := Some (batch_effect_layer nets b)\<rparr>)"
  have fw': "forward nets self x b = Inr ((outs, lats, batch_effect_layer nets b), ?self')"
    using fw big by simp
  have a: "imputation_model ?self' = Some (constructed self)"
    and c: "constructed ?self' = Suc (constructed self)"
    by (simp_all add: construct_imputation_def)
  have d: "\<forall>i<length outs. 0 < i \<longrightarrow>
              lats ! i = latent_layer nets
                (encode nets
                   (relu (torch_sub
                            (torch_add
                               (masked_imputed x
                                  (imputation_net nets (constructed self) (outs ! (i - 1))))
                               x)
                            (batch_effect_layer nets b))))"
    using rounds lo by (simp add: encoder_input_def)
  from fw' a c d show ?thesis by blast
qed

theorem forward_builds_imputation_once_per_call_witness:
  "2 \<le> t (scScope_init 2) \<and>
   (\<exists>outs lats bc self'.
      forward example_networks (scScope_init 2) [[1]] [[3]] = Inr ((outs, lats, bc), self') \<and>
      imputation_model self' = Some 0 \<and> constructed self' = 1)"
proof -
  have h: "2 \<le> t (scScope_init 2)" by (simp add: scScope_init_def)
  have c: "constructed (scScope_init 2) = 0" by (simp add: scScope_init_def)
  from forward_builds_imputation_once_per_call [OF h, of example_networks "[[1]]" "[[3]]"]
  obtain outs lats bc self' where
    "forward example_networks (scScope_init 2) [[1]] [[3]] = Inr ((outs, lats, bc), self')"
    "imputation_model self' = Some 0" "constructed self' = 1"
    unfolding c by auto
  then show ?thesis using h by blast
qed

lemma upt_0_2: "[0..<2] = [0, Suc 0]"
  by (simp add: upt_conv_Cons)

text \<open>
  Claim C1 as stated fails on the second forward call. Two calls on an instance built with
  \<open>t = 2\<close>: after the first the instance holds the subnetwork number 0, after the second
  the subnetwork number 1, and two subnetworks have been built.
\<close>

theorem imputation_rebuilt_each_call_counterexample:
  "forward_calls (scScope_init 2) [(example_networks, [[1]], [[3]])]
     = Inr \<lparr>t = 2, input = Some [[1]], batch_effect_removal_layer = Some [[3]],
            imputation_model = Some 0, constructed = 1\<rparr> \<and>
   forward_calls (scScope_init 2)
     [(example_networks, [[1]], [[3]]), (example_networks, [[1]], [[3]])]
     = Inr \<lparr>t = 2, input = Some [[1]], batch_effect_removal_layer = Some [[3]],
            imputation_model = Some (Suc 0), constructed = 2\<rparr>"
  by (simp add: scScope_init_def forward_def upt_0_2 round_input_def getattr_def
        construct_imputation_def example_networks_def Let_def)

lemma forward_single_round:
  assumes "t self \<le> 1"
  shows "\<exists>res. forward nets self x b
           = Inr (res, self\<lparr>input := Some x,
                          batch_effect_removal_layer := Some (batch_effect_layer nets b)\<rparr>)"
proof -
  have "nat (t self) \<le> 1" using assms by simp
  with forward_result [of nets self x b] show ?thesis by auto
qed

lemma forward_calls_single_round:
  assumes "t self \<le> 1"
  shows "\<exists>self'. forward_calls self calls = Inr self' \<and>
           t self' = t self \<and> imputation_model self' = imputation_model self \<and>
           constructed self' = constructed self"
  using assms
proof (induction calls arbitrary: self)
  case Nil
  show ?case by simp
next
  case (Cons call calls)
  obtain nets x b where call: "call = (nets, x, b)" by (cases call) auto
  let ?s1 = "self\<lparr>input := Some x,
                  batch_effect_removal_layer := Some (batch_effect_layer nets b)\<rparr>"
  from forward_single_round [OF Cons.prems, of nets x b] obtain res where
    fw: "forward nets self x b = Inr (res, ?s1)" by blast
  have "t ?s1 \<le> 1" using Cons.prems by simp
  from Cons.IH [OF this] obtain self' where
    "forward_calls ?s1 calls = Inr self'" "t self' = t ?s1"
    "imputation_model self' = imputation_model ?s1" "constructed self' = constructed ?s1"
    by blast
  then show ?case using fw call by simp
qed

text \<open>
  Claim C2. On an instance built with \<open>t = 1\<close>, any number of forward calls succeeds and
  never builds the imputation subnetwork: the instance holds none afterwards, and its
  parameters are those of the encoder, the latent layer, the decoder, the output
  projection and the batch-effect layer.
\<close>

theorem single_round_never_builds_imputation:
  "\<exists>self'. forward_calls (scScope_init 1) calls = Inr self' \<and>
           imputation_model self' = None \<and> constructed self' = 0 \<and>
           parameters self'
             = [Encoder, Latent_layer, Decoder, Output_projection, Batch_effect_layer]"
proof -
  have "t (scScope_init 1) \<le> 1" by (simp add: scScope_init_def)
  from forward_calls_single_round [OF this, of calls] obtain self' where
    "forward_calls (scScope_init 1) calls = Inr self'"
    "imputation_model self' = None" "constructed self' = 0"
    by (auto simp: scScope_init_def)
  then show ?thesis by (simp add: parameters_def)
qed

section \<open>Properties of the batch indicator and of prediction\<close>

lemma ones_like_column:
  "(\<And>row. row \<in> set batch \<Longrightarrow> length row = 1) \<Longrightarrow>
   ones_like batch = replicate (length batch) [1]"
proof (induction batch)
  case Nil
  show ?case by (simp add: ones_like_def)
next
  case (Cons row batch)
  have "length row = 1" using Cons.prems by simp
  then obtain l where "row = [l]" by (cases row) auto
  moreover have "ones_like batch = replicate (length batch) [1]"
    using Cons by simp
  ultimately show ?case by (simp add: ones_like_def)
qed

lemma ones_like_shape: "map length (ones_like batch) = map length batch"
  by (simp add: ones_like_def)

lemma ones_like_entries: "row \<in> set (ones_like batch) \<Longrightarrow> v \<in> set row \<Longrightarrow> v = 1"
  by (auto simp: ones_like_def)

text \<open>
  Claim C9, as amended. When predict is given batch labels with at most one distinct
  value, and when the trainer's dataset has at most one batch, the batch indicator is an
  array of ones with the shape of the array of batch labels, not a one-hot matrix. It is
  the all-ones column of shape (cells, 1) when the labels are given as such a column.
\<close>

theorem single_batch_indicator_is_ones:
  assumes "np_unique_len batch \<le> 1" and "num_batches ds \<le> 1"
  shows "(\<exists>m. predict_one_hot_batches batch = Inr m \<and>
              map length m = map length batch \<and>
              (\<forall>row \<in> set m. \<forall>v \<in> set row. v = 1) \<and>
              ((\<forall>row \<in> set batch. length row = 1) \<longrightarrow> m = replicate (length batch) [1])) \<and>
         (\<exists>m. trainer_one_hot_batches ds = Inr m \<and>
              map length m = map length (batch_indices ds) \<and>
              (\<forall>row \<in> set m. \<forall>v \<in> set row. v = 1) \<and>
              ((\<forall>row \<in> set (batch_indices ds). length row = 1) \<longrightarrow>
                 m = replicate (length (batch_indices ds)) [1]))"
proof
  have p: "predict_one_hot_batches batch = Inr (ones_like batch)"
    using assms(1) by (simp add: predict_one_hot_batches_def)
  have "(\<forall>row \<in> set batch. length row = 1) \<longrightarrow>
          ones_like batch = replicate (length batch) [1]"
    using ones_like_column [of batch] by blast
  with p ones_like_shape [of batch] ones_like_entries [of _ batch]
  show "\<exists>m. predict_one_hot_batches batch = Inr m \<and>
              map length m = map length batch \<and>
              (\<forall>row \<in> set m. \<forall>v \<in> set row. v = 1) \<and>
              ((\<forall>row \<in> set batch. length row = 1) \<longrightarrow> m = replicate (length batch) [1])"
    by blast
next
  let ?b = "batch_indices ds"
  have p: "trainer_one_hot_batches ds = Inr (ones_like ?b)"
    using assms(2) by (simp add: trainer_one_hot_batches_def)
  have "(\<forall>row \<in> set ?b. length row = 1) \<longrightarrow> ones_like ?b = replicate (length ?b) [1]"
    using ones_like_column [of ?b] by blast
  with p ones_like_shape [of ?b] ones_like_entries [of _ ?b]
  show "\<exists>m. trainer_one_hot_batches ds = Inr m \<and>
              map length m = map length ?b \<and>
              (\<forall>row \<in> set m. \<forall>v \<in> set row. v = 1) \<and>
              ((\<forall>row \<in> set ?b. length row = 1) \<longrightarrow> m = replicate (length ?b) [1])"
    by blast
qed

theorem single_batch_indicator_is_ones_witness:
  "np_unique_len [[7], [7], [7]] \<le> 1 \<and>
   num_batches \<lparr>nb_cells = 3, num_batches = 1, batch_indices = [[7], [7], [7]]\<rparr> \<le> 1 \<and>
   predict_one_hot_batches [[7], [7], [7]] = Inr [[1], [1], [1]] \<and>
   trainer_one_hot_batches
     \<lparr>nb_cells = 3, num_batches = 1, batch_indices = [[7], [7], [7]]\<rparr>
     = Inr [[1], [1], [1]]"
proof -
  let ?b = "[[7], [7], [7 :: int]]"
  let ?ds = "\<lparr>nb_cells = 3, num_batches = 1, batch_indices = ?b\<rparr>"
  have h1: "np_unique_len ?b \<le> 1" by (simp add: np_unique_len_def)
  have h2: "num_batches ?ds \<le> 1" by simp
  have col: "\<forall>row \<in> set ?b. length row = 1" by simp
  have col': "\<forall>row \<in> set (batch_indices ?ds). length row = 1" by simp
  have rep: "replicate (length ?b) [1 :: real] = [[1], [1], [1]]" by simp
  have rep': "replicate (length (batch_indices ?ds)) [1 :: real] = [[1], [1], [1]]" by simp
  from single_batch_indicator_is_ones [OF h1 h2] col col'
  have "predict_one_hot_batches ?b = Inr (replicate (length ?b) [1])"
    and "trainer_one_hot_batches ?ds = Inr (replicate (length (batch_indices ?ds)) [1])"
    by blast+
  then show ?thesis using h1 h2 unfolding rep rep' by blast
qed

text \<open>
  Claim C9 as stated fails where the labels are not a column of shape (cells, 1), and in
  the trainer where the dataset's number of batches is not its number of distinct labels.
  Two cells with two equal labels each give predict and the trainer the indicator of
  shape (2, 2). Two cells with the same label 1 in a dataset of two batches give the
  trainer a matrix with a column of zeros.
\<close>

theorem single_batch_indicator_shape_counterexample:
  "np_unique_len [[7, 7], [7, 7]] = 1 \<and>
   predict_one_hot_batches [[7, 7], [7, 7]] = Inr [[1, 1], [1, 1]] \<and>
   trainer_one_hot_batches
     \<lparr>nb_cells = 2, num_batches = 1, batch_indices = [[7, 7], [7, 7]]\<rparr>
     = Inr [[1, 1], [1, 1]] \<and>
   np_unique_len [[1], [1]] = 1 \<and>
   trainer_one_hot_batches \<lparr>nb_cells = 2, num_batches = 2, batch_indices = [[1], [1]]\<rparr>
     = Inr [[1, 0], [1, 0]]"
  by (simp add: np_unique_len_def predict_one_hot_batches_def trainer_one_hot_batches_def
        ones_like_def one_hot_matrix_def assign_columns_def in_bounds_def column_of_def
        numeral_2_eq_2)

lemma assign_row_length:
  "length (foldl (\<lambda>r j. r[column_of k j := 1]) row idx) = length row"
  by (induction idx arbitrary: row) simp_all

lemma assign_row_nth:
  "c < length row \<Longrightarrow>
   foldl (\<lambda>r j. r[column_of k j := 1]) row idx ! c
     = (if c \<in> set (map (column_of k) idx) then 1 else row ! c)"
proof (induction idx arbitrary: row)
  case Nil
  show ?case by simp
next
  case (Cons j idx)
  have "c < length (row[column_of k j := 1])" using Cons.prems by simp
  from Cons.IH [OF this] show ?case
    using Cons.prems by (auto simp: nth_list_update)
qed

lemma assign_row_zero:
  "foldl (\<lambda>r j. r[column_of k j := 1]) (replicate k 0) idx
     = map (\<lambda>c. if c \<in> set (map (column_of k) idx) then 1 else 0) [0..<k]"
  by (rule nth_equalityI) (simp_all add: assign_row_length assign_row_nth)

lemma one_hot_matrix_rows:
  assumes "list_all (\<lambda>l. in_bounds k (l - 1)) (concat batch)"
  shows "one_hot_matrix n k batch = Inr (replicate n (indicator_row k batch))"
proof -
  have "list_all (in_bounds k) (map (\<lambda>l. l - 1) (concat batch))"
    using assms by (simp add: list_all_iff)
  then show ?thesis
    by (simp add: one_hot_matrix_def assign_columns_def assign_row_zero indicator_row_def
          comp_def del: replicate.simps)
qed

text \<open>
  Claim C10. With more than one distinct batch and every index \<open>label - 1\<close> within the
  columns, the indicator matrix of predict and of the trainer's setup has the same row for
  every cell: the row with a 1 in every column \<open>label - 1\<close> of a label that occurs anywhere
  in the array of batch labels.
\<close>

theorem multi_batch_indicator_same_row:
  assumes "1 < np_unique_len batch"
    and "list_all (\<lambda>l. in_bounds (np_unique_len batch) (l - 1)) (concat batch)"
    and "1 < num_batches ds"
    and "list_all (\<lambda>l. in_bounds (num_batches ds) (l - 1)) (concat (batch_indices ds))"
  shows "predict_one_hot_batches batch
           = Inr (replicate (length batch) (indicator_row (np_unique_len batch) batch)) \<and>
         trainer_one_hot_batches ds
           = Inr (replicate (nb_cells ds) (indicator_row (num_batches ds) (batch_indices ds)))"
  using assms
  by (simp add: predict_one_hot_batches_def trainer_one_hot_batches_def one_hot_matrix_rows)

theorem multi_batch_indicator_same_row_witness:
  "1 < np_unique_len [[1], [2], [1]] \<and>
   list_all (\<lambda>l. in_bounds (np_unique_len [[1], [2], [1]]) (l - 1)) (concat [[1], [2], [1]]) \<and>
   predict_one_hot_batches [[1], [2], [1]] = Inr [[1, 1], [1, 1], [1, 1]] \<and>
   trainer_one_hot_batches
     \<lparr>nb_cells = 3, num_batches = 2, batch_indices = [[1], [2], [1]]\<rparr>
     = Inr [[1, 1], [1, 1], [1, 1]]"
proof -
  let ?b = "[[1], [2], [1 :: int]]"
  let ?ds = "\<lparr>nb_cells = 3, num_batches = 2, batch_indices = ?b\<rparr>"
  have u: "np_unique_len ?b = 2" by (simp add: np_unique_len_def)
  have h1: "1 < np_unique_len ?b" unfolding u by simp
  have h2: "list_all (\<lambda>l. in_bounds (np_unique_len ?b) (l - 1)) (concat ?b)"
    unfolding u by (simp add: in_bounds_def)
  have h3: "1 < num_batches ?ds" by simp
  have h4: "list_all (\<lambda>l. in_bounds (num_batches ?ds) (l - 1)) (concat (batch_indices ?ds))"
    by (simp add: in_bounds_def)
  have row: "indicator_row 2 ?b = [1, 1]"
    by (simp add: indicator_row_def column_of_def upt_conv_Cons)
  have rep: "replicate 3 [1, 1 :: real] = [[1, 1], [1, 1], [1, 1]]"
    by (simp add: numeral_3_eq_3)
  from multi_batch_indicator_same_row [OF h1 h2 h3 h4]
  have "predict_one_hot_batches ?b = Inr [[1, 1], [1, 1], [1, 1]]"
    and "trainer_one_hot_batches ?ds = Inr [[1, 1], [1, 1], [1, 1]]"
    unfolding u by (simp_all add: row rep)
  with h1 h2 show ?thesis by blast
qed

lemma predict_never_returns: "predict nets self input_d batch_data \<noteq> Inr r"
  by (simp add: predict_def split: sum.splits prod.splits)

text \<open>
  Claim C8 against the code. Predict builds the indicator and runs forward, then calls
  \<^verbatim>\<open>.detach()\<close> on the list of round outputs that forward returned. A list has no such
  method: the call raises, and predict returns nothing, here on a one-cell matrix with
  one batch label, and on no input at all.
\<close>

theorem predict_raises_on_output_list:
  "predict example_networks (scScope_init 2) [[1]] [[1]] = Inl AttributeError \<and>
   predict nets self input_d batch_data \<noteq> Inr r"
proof
  have oh: "predict_one_hot_batches [[1]] = Inr [[1]]"
    by (simp add: predict_one_hot_batches_def np_unique_len_def ones_like_def)
  from forward_result [of example_networks "scScope_init 2" "[[1]]" "[[1]]"]
  obtain res self' where "forward example_networks (scScope_init 2) [[1]] [[1]] = Inr (res, self')"
    by blast
  then show "predict example_networks (scScope_init 2) [[1]] [[1]] = Inl AttributeError"
    by (simp add: predict_def oh split: prod.splits)
next
  show "predict nets self input_d batch_data \<noteq> Inr r"
    by (rule predict_never_returns)
qed

end
